theory Spec2Isabelle
  imports Complex_Main
begin

section \<open>Data model of \<open>midi_interaction.py\<close>\<close>

text \<open>
  Times (seconds of wall clock or of session time) are Python floats in the source; they
  are modelled as \<open>real\<close>, so rounding is not part of the model. Bar counts and pitches
  are Python ints, modelled as \<open>int\<close>; list indices as \<open>nat\<close>.
\<close>

datatype py_error =
  IndexError | KeyError | ZeroDivisionError | ValueError | AttributeError | GenerationFailure

text \<open>The namedtuple \<open>Note(pitch, velocity, start, end)\<close>.\<close>

datatype Note = Note (pitch: int) (velocity: int) (start: real) (ending: real)

text \<open>A note of a \<open>NoteSequence\<close> message, and the message itself (the attributes the
  module reads or writes: notes, total time, tempos).\<close>

record seq_note =
  note_pitch :: int
  note_velocity :: int
  start_time :: real
  end_time :: real
  instrument :: int
  is_drum :: bool
  program :: int

record NoteSequence =
  seq_notes :: "seq_note list"
  total_time :: real
  tempos :: "real list"

definition empty_sequence :: NoteSequence where
  "empty_sequence = \<lparr>seq_notes = [], total_time = 0, tempos = []\<rparr>"

text \<open>\<open>adjust_sequence_times\<close>: a copy of the sequence with every note and the total
  time moved by \<open>delta_time\<close>.\<close>

definition adjust_note :: "real \<Rightarrow> seq_note \<Rightarrow> seq_note" where
  "adjust_note delta_time n =
     n\<lparr>start_time := start_time n + delta_time, end_time := end_time n + delta_time\<rparr>"

definition adjust_sequence_times :: "NoteSequence \<Rightarrow> real \<Rightarrow> NoteSequence" where
  "adjust_sequence_times sequence delta_time =
     sequence\<lparr>seq_notes := map (adjust_note delta_time) (seq_notes sequence),
              total_time := total_time sequence + delta_time\<rparr>"

text \<open>\<open>generate_midi_chord(notes, start_time, duration=2, velocity=80)\<close>: the optional
  arguments are options, \<open>None\<close> standing for the default. The duration is stored in the
  tuple's \<open>end\<close> field.\<close>

definition generate_midi_chord ::
  "int list \<Rightarrow> real \<Rightarrow> real option \<Rightarrow> int option \<Rightarrow> Note list" where
  "generate_midi_chord ns start_t duration vel =
     map (\<lambda>n. Note n (case vel of None \<Rightarrow> 80 | Some v \<Rightarrow> v) start_t
                  (case duration of None \<Rightarrow> 2 | Some d \<Rightarrow> d)) ns"

text \<open>\<open>add_track_to_sequence\<close> of the sequence library's testing helpers: each tuple is
  appended as a note of the given instrument, and the total time grows to the latest
  end.\<close>

definition add_note :: "int \<Rightarrow> NoteSequence \<Rightarrow> Note \<Rightarrow> NoteSequence" where
  "add_note instr sq n =
     sq\<lparr>seq_notes := seq_notes sq @
            [\<lparr>note_pitch = pitch n, note_velocity = velocity n, start_time = start n,
              end_time = ending n, instrument = instr, is_drum = False, program = 0\<rparr>],
        total_time := (if ending n > total_time sq then ending n else total_time sq)\<rparr>"

definition add_track_to_sequence :: "NoteSequence \<Rightarrow> int \<Rightarrow> Note list \<Rightarrow> NoteSequence" where
  "add_track_to_sequence sq instr ns = foldl (add_note instr) sq ns"

text \<open>\<open>CacheItem\<close>: a cached sequence and its anchor.\<close>

record CacheItem =
  sequence :: NoteSequence
  anchor :: real

text \<open>Modelled from the spec: the classes \<open>Part\<close> and \<open>Structure\<close> are not in the
  module. A part has a name, a duration in bars (\<open>duration(bars=True)\<close>) and the MIDI
  pitches of its chord progression (\<open>get_midi_chords()\<close>); a structure is an ordered
  sequence of parts, indexed like a list, whose duration is the sum of its parts'.\<close>

record Part =
  name :: string
  duration :: int
  get_midi_chords :: "int list list"

definition structure_duration :: "Part list \<Rightarrow> int" where
  "structure_duration ps = sum_list (map duration ps)"

text \<open>The three cached tracks, their generator indices, and the playback channels of the
  four players.\<close>

datatype track = Melody | Bass | Drums

fun gen_index :: "track \<Rightarrow> nat" where
  "gen_index Melody = 0"
| "gen_index Bass = 1"
| "gen_index Drums = 2"

text \<open>A cache is a Python dict from part names to \<open>None\<close> or a cache item: a key can be
  absent (\<open>None\<close>), present with value \<open>None\<close> (\<open>Some None\<close>) or present with an item.\<close>

type_synonym cache = "string \<rightharpoonup> CacheItem option"

record GeneratorOptions =
  input_sections :: "(real \<times> real) list"
  generate_sections :: "(real \<times> real) list"
  temperature_arg :: real

record gen_call =
  call_index :: nat
  call_input :: NoteSequence
  call_options :: GeneratorOptions

text \<open>An external generator: its result may depend on how many calls were made before
  (the models are random), and it may fail.\<close>

type_synonym generator = "nat \<Rightarrow> NoteSequence \<Rightarrow> GeneratorOptions \<Rightarrow> py_error + NoteSequence"

datatype playback_event =
  StartPlayback nat NoteSequence
| UpdateSequence nat NoteSequence "real option"
| StopPlayer nat

datatype hub_event =
  StartCapture real real
| StartMetronome real real nat
| RegisterCallback string nat

text \<open>The constructor's arguments, and the library's trimming function, which the module
  imports: \<open>trim_note_sequence cfg sq a b\<close> is the library's result.\<close>

record config =
  STRUCTURE :: "Part list"
  sequence_generators :: "generator list"
  default_qpm :: real
  clock_signal :: "nat option"
  tick_duration_arg :: "real option"
  metronome_channel :: "nat option"
  tempo_control_number :: "nat option"
  temperature_control_number :: "nat option"
  end_call_signal :: "nat option"
  panic_signal :: "nat option"
  mutate_signal :: "nat option"
  trim_note_sequence :: "NoteSequence \<Rightarrow> real \<Rightarrow> real \<Rightarrow> NoteSequence"

text \<open>What one iteration of the capture receives from outside: the captured sequence, the
  captor's start time, the control values of the hub, and the two readings of the wall
  clock that the lateness test and the push computation make.\<close>

record tick =
  captured_sequence :: NoteSequence
  captor_start_time :: real
  controls :: "nat \<rightharpoonup> int"
  clock_check :: real
  clock_push :: real

text \<open>Modelled from the spec: \<open>MidiHub.control_value\<close> is not in the module; it is a
  read-only snapshot, with no value for a missing or unmapped control number.\<close>

definition control_value :: "(nat \<rightharpoonup> int) \<Rightarrow> nat option \<Rightarrow> int option" where
  "control_value ctl n = (case n of None \<Rightarrow> None | Some k \<Rightarrow> ctl k)"

definition BASE_QPM :: real where
  "BASE_QPM = 60"

definition qpm :: "config \<Rightarrow> (nat \<rightharpoonup> int) \<Rightarrow> real" where
  "qpm cfg ctl =
     (case control_value ctl (tempo_control_number cfg) of
        None \<Rightarrow> default_qpm cfg
      | Some v \<Rightarrow> real_of_int v + BASE_QPM)"

definition temperature :: "config \<Rightarrow> (nat \<rightharpoonup> int) \<Rightarrow> real" where
  "temperature cfg ctl =
     (case control_value ctl (temperature_control_number cfg) of
        None \<Rightarrow> 1
      | Some v \<Rightarrow> 1 / 10 + (real_of_int v / 127) * (2 - 1 / 10))"

section \<open>The generation gateway\<close>

text \<open>\<open>_generate\<close>: the result and the generator calls made. \<open>seed\<close> is the number of
  generator calls made before.\<close>

definition generate ::
  "config \<Rightarrow> tick \<Rightarrow> nat \<Rightarrow> nat \<Rightarrow> NoteSequence \<Rightarrow> real \<Rightarrow> real \<Rightarrow> real
     \<Rightarrow> (py_error + NoteSequence) \<times> gen_call list" where
  "generate cfg tk seed gen_idx input_sequence zero_time response_start response_end =
     (let rs = response_start - zero_time;
          re = response_end - zero_time;
          generator_options =
            \<lparr>input_sections = [(0, rs)], generate_sections = [(rs, re)],
             temperature_arg = temperature cfg (controls tk)\<rparr>
      in if gen_idx < length (sequence_generators cfg) then
           (let inp = adjust_sequence_times input_sequence (- zero_time);
                call = \<lparr>call_index = gen_idx, call_input = inp,
                        call_options = generator_options\<rparr>
            in case (sequence_generators cfg ! gen_idx) seed inp generator_options of
                 Inl e \<Rightarrow> (Inl e, [call])
               | Inr response_sequence \<Rightarrow>
                   (Inr (adjust_sequence_times
                           (trim_note_sequence cfg response_sequence rs re) zero_time),
                    [call]))
         else (Inl IndexError, []))"

section \<open>The performance loop\<close>

text \<open>The instance's flags and caches, the local variables of \<open>run\<close> that live across
  iterations, and what the run has done to its collaborators so far: the calls on the four
  players, on the generators and on the hub.\<close>

record state =
  stop_signal :: bool
  panic :: bool
  end_call :: bool
  mutate :: bool
  caches :: "track \<Rightarrow> cache"
  last_tick_time :: real
  response_sequence :: NoteSequence
  response_start_time :: real
  response_duration :: real
  part_in_song :: nat
  bars_played :: int
  bars_played_for_part :: int
  total_bars :: int
  part_duration :: int
  playback :: "playback_event list"
  gen_log :: "gen_call list"
  hub_log :: "hub_event list"

datatype status = Continue | Break | Raised py_error

text \<open>The players of melody, bass, chords and drums play on channels 1, 2, 3 and 9.\<close>

definition panic_flush :: "state \<Rightarrow> state" where
  "panic_flush s =
     (if panic s then
        s\<lparr>response_sequence := empty_sequence,
          playback := playback s @
            [UpdateSequence 1 empty_sequence None, UpdateSequence 2 empty_sequence None,
             UpdateSequence 3 empty_sequence None, UpdateSequence 9 empty_sequence None],
          panic := False\<rparr>
      else s)"

definition metronome :: "config \<Rightarrow> real \<Rightarrow> real \<Rightarrow> state \<Rightarrow> state" where
  "metronome cfg q t s =
     (if clock_signal cfg = None \<and> metronome_channel cfg \<noteq> None then
        s\<lparr>hub_log := hub_log s @ [StartMetronome q t (the (metronome_channel cfg))]\<rparr>
      else s)"

text \<open>\<open>captured_sequence.tempos[0].qpm = self._qpm\<close>.\<close>

definition set_tempo :: "NoteSequence \<Rightarrow> real \<Rightarrow> py_error + NoteSequence" where
  "set_tempo sq q =
     (case tempos sq of [] \<Rightarrow> Inl IndexError | t # ts \<Rightarrow> Inr (sq\<lparr>tempos := q # ts\<rparr>))"

definition advance_part :: "state \<Rightarrow> state" where
  "advance_part s =
     (if bars_played_for_part s > part_duration s then
        s\<lparr>part_in_song := part_in_song s + 1, bars_played_for_part := 0\<rparr>
      else s)"

text \<open>One of the three cache consultations of a part boundary. A hit takes the cached
  sequence and overwrites \<open>response_start_time\<close> with the cached anchor; a miss calls
  the gateway and stores the result with the captor's start time as its anchor.\<close>

definition lookup_or_generate ::
  "config \<Rightarrow> tick \<Rightarrow> NoteSequence \<Rightarrow> Part \<Rightarrow> track \<Rightarrow> state
     \<Rightarrow> (py_error + NoteSequence) \<times> state" where
  "lookup_or_generate cfg tk captured part trk s =
     (case caches s trk (name part) of
        None \<Rightarrow> (Inl KeyError, s)
      | Some (Some item) \<Rightarrow> (Inr (sequence item), s\<lparr>response_start_time := anchor item\<rparr>)
      | Some None \<Rightarrow>
          (case generate cfg tk (length (gen_log s)) (gen_index trk) captured
                  (captor_start_time tk) (response_start_time s)
                  (response_start_time s + response_duration s) of
             (Inl e, calls) \<Rightarrow> (Inl e, s\<lparr>gen_log := gen_log s @ calls\<rparr>)
           | (Inr sq, calls) \<Rightarrow>
               (Inr sq,
                s\<lparr>gen_log := gen_log s @ calls,
                  caches := (caches s)(trk := (caches s trk)(name part \<mapsto>
                     Some \<lparr>sequence = sq, anchor = captor_start_time tk\<rparr>))\<rparr>)))"

text \<open>The chord track of a part: lines 336 to 343.\<close>

definition chord_notes :: "Part \<Rightarrow> Note list" where
  "chord_notes part =
     concat (map (\<lambda>(i, chord). generate_midi_chord chord (real i / 2) (Some (1 / 2)) None)
                 (enumerate 0 (get_midi_chords part)))"

definition shift_chord_notes :: "real \<Rightarrow> Note list \<Rightarrow> Note list" where
  "shift_chord_notes t ns =
     map (\<lambda>n. Note (pitch n) (velocity n) (start n + t) (start n + ending n + t)) ns"

definition chord_track :: "Part \<Rightarrow> real \<Rightarrow> NoteSequence" where
  "chord_track part t =
     add_track_to_sequence empty_sequence 0 (shift_chord_notes t (chord_notes part))"

text \<open>\<open>self.X_CACHE[part.name].response_start_time = response_start_time\<close>.\<close>

definition set_anchor :: "track \<Rightarrow> string \<Rightarrow> real \<Rightarrow> state \<Rightarrow> py_error + state" where
  "set_anchor trk nm t s =
     (case caches s trk nm of
        None \<Rightarrow> Inl KeyError
      | Some None \<Rightarrow> Inl AttributeError
      | Some (Some item) \<Rightarrow>
          Inr (s\<lparr>caches := (caches s)(trk := (caches s trk)(nm \<mapsto> Some (item\<lparr>anchor := t\<rparr>)))\<rparr>))"

text \<open>Lines 345 to 356. The wall clock is read twice: \<open>clock_check\<close> in the test,
  \<open>clock_push\<close> in the number of ticks. Floor division by a zero float raises.\<close>

type_synonym four_tracks = "NoteSequence \<times> NoteSequence \<times> NoteSequence \<times> NoteSequence"

definition push_ticks :: "tick \<Rightarrow> real \<Rightarrow> real \<Rightarrow> real" where
  "push_ticks tk tick_duration rst =
     real_of_int \<lfloor>(clock_push tk - rst) / tick_duration\<rfloor> + 1"

definition latency_push ::
  "tick \<Rightarrow> Part \<Rightarrow> real \<Rightarrow> four_tracks \<Rightarrow> state \<Rightarrow> (py_error + four_tracks) \<times> state" where
  "latency_push tk part tick_duration seqs s =
     (case seqs of (melody_sequence, bass_sequence, chord_sequence, drum_sequence) \<Rightarrow>
        if clock_check tk - response_start_time s \<ge> tick_duration / 4 then
          if tick_duration = 0 then (Inl ZeroDivisionError, s)
          else
            (let delta = push_ticks tk tick_duration (response_start_time s) * tick_duration;
                 s1 = s\<lparr>response_start_time := response_start_time s + delta\<rparr>;
                 seqs' = (adjust_sequence_times melody_sequence delta,
                          adjust_sequence_times bass_sequence delta,
                          adjust_sequence_times chord_sequence delta,
                          adjust_sequence_times drum_sequence delta)
             in case set_anchor Melody (name part) (response_start_time s1) s1 of
                  Inl e \<Rightarrow> (Inl e, s1)
                | Inr s2 \<Rightarrow>
                   (case set_anchor Bass (name part) (response_start_time s1) s2 of
                      Inl e \<Rightarrow> (Inl e, s2)
                    | Inr s3 \<Rightarrow>
                       (case set_anchor Drums (name part) (response_start_time s1) s3 of
                          Inl e \<Rightarrow> (Inl e, s3)
                        | Inr s4 \<Rightarrow> (Inr seqs', s4))))
        else (Inr seqs, s))"

text \<open>Lines 358 to 362.\<close>

definition dispatch :: "four_tracks \<Rightarrow> state \<Rightarrow> state" where
  "dispatch seqs s =
     (case seqs of (melody_sequence, bass_sequence, chord_sequence, drum_sequence) \<Rightarrow>
        s\<lparr>playback := playback s @
            [UpdateSequence 1 melody_sequence (Some (response_start_time s)),
             UpdateSequence 2 bass_sequence (Some (response_start_time s)),
             UpdateSequence 3 chord_sequence (Some (response_start_time s)),
             UpdateSequence 9 drum_sequence (Some (response_start_time s))]\<rparr>)"

text \<open>The work of a tick at the start of a part: lines 303 to 362.\<close>

definition part_boundary ::
  "config \<Rightarrow> tick \<Rightarrow> NoteSequence \<Rightarrow> Part \<Rightarrow> real \<Rightarrow> state \<Rightarrow> status \<times> state" where
  "part_boundary cfg tk captured part tick_duration s =
     (case lookup_or_generate cfg tk captured part Melody s of
        (Inl e, sm) \<Rightarrow> (Raised e, sm)
      | (Inr melody_sequence, sm) \<Rightarrow>
         (case lookup_or_generate cfg tk captured part Bass sm of
            (Inl e, sb) \<Rightarrow> (Raised e, sb)
          | (Inr bass_sequence, sb) \<Rightarrow>
             (case lookup_or_generate cfg tk captured part Drums sb of
                (Inl e, sd) \<Rightarrow> (Raised e, sd)
              | (Inr drum_sequence, sd) \<Rightarrow>
                 (case latency_push tk part tick_duration
                         (melody_sequence, bass_sequence,
                          chord_track part (response_start_time sd), drum_sequence) sd of
                    (Inl e, sl) \<Rightarrow> (Raised e, sl)
                  | (Inr seqs, sl) \<Rightarrow> (Continue, dispatch seqs sl)))))"

text \<open>The bookkeeping of lines 291 to 297.\<close>

definition bookkeeping :: "Part \<Rightarrow> real \<Rightarrow> real \<Rightarrow> state \<Rightarrow> state" where
  "bookkeeping part tick_time tick_duration s =
     s\<lparr>part_duration := duration part,
       response_start_time := tick_time,
       response_duration := real_of_int (duration part) * tick_duration,
       last_tick_time := tick_time,
       bars_played := bars_played s + 1,
       bars_played_for_part := bars_played_for_part s + 1\<rparr>"

text \<open>The body of the loop, lines 257 to 362, for one captured sequence.\<close>

definition tick_body :: "config \<Rightarrow> state \<Rightarrow> tick \<Rightarrow> status \<times> state" where
  "tick_body cfg s0 tk =
     (if stop_signal s0 then (Break, s0)
      else
        (let s1 = panic_flush s0;
             tick_time = total_time (captured_sequence tk);
             s2 = metronome cfg (qpm cfg (controls tk)) tick_time s1
         in case set_tempo (captured_sequence tk) (qpm cfg (controls tk)) of
              Inl e \<Rightarrow> (Raised e, s2)
            | Inr captured \<Rightarrow>
               (let tick_duration = tick_time - last_tick_time s2;
                    s3 = advance_part s2
                in if part_in_song s3 \<ge> length (STRUCTURE cfg) then (Break, s3)
                   else
                     (let start_of_part = (bars_played_for_part s3 = 0);
                          part = STRUCTURE cfg ! part_in_song s3;
                          s4 = bookkeeping part tick_time tick_duration s3
                      in if \<not> start_of_part then (Continue, s4)
                         else part_boundary cfg tk captured part tick_duration s4))))"

section \<open>Signals, the loop and the run\<close>

text \<open>Between two ticks the captor's thread may deliver signals, which call the registered
  callbacks, and another thread may request the stop.\<close>

datatype event = Tick tick | PanicCallback | EndCallCallback | MutateCallback | StopRequest

fun callback :: "event \<Rightarrow> state \<Rightarrow> state" where
  "callback PanicCallback s = s\<lparr>panic := True\<rparr>"
| "callback EndCallCallback s = s\<lparr>end_call := True\<rparr>"
| "callback MutateCallback s = s\<lparr>mutate := True\<rparr>"
| "callback StopRequest s = s\<lparr>stop_signal := True\<rparr>"
| "callback (Tick tk) s = s"

text \<open>\<open>steps\<close>: the state after the events, when the loop is still running then.\<close>

fun steps :: "config \<Rightarrow> state \<Rightarrow> event list \<Rightarrow> state option" where
  "steps cfg s [] = Some s"
| "steps cfg s (Tick tk # es) =
     (case tick_body cfg s tk of (Continue, s') \<Rightarrow> steps cfg s' es | _ \<Rightarrow> None)"
| "steps cfg s (e # es) = steps cfg (callback e s) es"

text \<open>The loop: it ends when the capture ends, at a \<open>break\<close>, or with an exception.\<close>

fun run_loop :: "config \<Rightarrow> state \<Rightarrow> event list \<Rightarrow> py_error option \<times> state" where
  "run_loop cfg s [] = (None, s)"
| "run_loop cfg s (Tick tk # es) =
     (case tick_body cfg s tk of
        (Continue, s') \<Rightarrow> run_loop cfg s' es
      | (Break, s') \<Rightarrow> (None, s')
      | (Raised e, s') \<Rightarrow> (Some e, s'))"
| "run_loop cfg s (e # es) = run_loop cfg (callback e s) es"

text \<open>\<open>__init__\<close>: exactly one of the clock signal and the tick duration is given; the
  three caches map every part name to \<open>None\<close>. The locals of \<open>run\<close> do not exist yet;
  \<open>run_init\<close> assigns each of them before the loop reads it.\<close>

definition new_instance :: "config \<Rightarrow> state" where
  "new_instance cfg =
     \<lparr>stop_signal = False, panic = False, end_call = False, mutate = False,
      caches = (\<lambda>trk. map_of (map (\<lambda>p. (name p, None)) (STRUCTURE cfg))),
      last_tick_time = 0, response_sequence = empty_sequence, response_start_time = 0,
      response_duration = 0, part_in_song = 0, bars_played = 0,
      bars_played_for_part = 0, total_bars = 0, part_duration = 0,
      playback = [], gen_log = [], hub_log = []\<rparr>"

definition init :: "config \<Rightarrow> py_error + state" where
  "init cfg =
     (if (clock_signal cfg = None) = (tick_duration_arg cfg = None) then Inl ValueError
      else Inr (new_instance cfg))"

definition register_callback :: "string \<Rightarrow> nat option \<Rightarrow> state \<Rightarrow> state" where
  "register_callback cb sig s =
     (case sig of None \<Rightarrow> s | Some g \<Rightarrow> s\<lparr>hub_log := hub_log s @ [RegisterCallback cb g]\<rparr>)"

text \<open>Lines 217 to 253: \<open>ctl\<close> are the control values and \<open>clock0\<close>, \<open>clock1\<close> the two
  readings of the wall clock then.\<close>

definition run_init ::
  "config \<Rightarrow> (nat \<rightharpoonup> int) \<Rightarrow> real \<Rightarrow> real \<Rightarrow> state \<Rightarrow> py_error option \<times> state" where
  "run_init cfg ctl clock0 clock1 s =
     (let s1 = s\<lparr>hub_log := hub_log s @ [StartCapture (qpm cfg ctl) clock0]\<rparr>;
          s2 = metronome cfg (qpm cfg ctl) clock0 s1;
          s3 = register_callback ''mutate'' (mutate_signal cfg)
                 (register_callback ''panic'' (panic_signal cfg)
                    (register_callback ''end_call'' (end_call_signal cfg) s2));
          s4 = s3\<lparr>last_tick_time := clock1, response_sequence := empty_sequence,
                  response_start_time := 0, response_duration := 0,
                  playback := playback s3 @
                    [StartPlayback 1 empty_sequence, StartPlayback 2 empty_sequence,
                     StartPlayback 3 empty_sequence, StartPlayback 9 empty_sequence],
                  part_in_song := 0, bars_played := 0, bars_played_for_part := 0,
                  total_bars := structure_duration (STRUCTURE cfg)\<rparr>
      in if part_in_song s4 < length (STRUCTURE cfg) then
           (None, s4\<lparr>part_duration := duration (STRUCTURE cfg ! part_in_song s4)\<rparr>)
         else (Some IndexError, s4))"

definition stop_players :: "state \<Rightarrow> state" where
  "stop_players s =
     s\<lparr>playback := playback s @ [StopPlayer 1, StopPlayer 2, StopPlayer 3, StopPlayer 9]\<rparr>"

definition run ::
  "config \<Rightarrow> (nat \<rightharpoonup> int) \<Rightarrow> real \<Rightarrow> real \<Rightarrow> event list \<Rightarrow> state \<Rightarrow> py_error option \<times> state" where
  "run cfg ctl clock0 clock1 events s =
     (case run_init cfg ctl clock0 clock1 s of
        (Some e, s') \<Rightarrow> (Some e, s')
      | (None, s') \<Rightarrow>
         (case run_loop cfg s' events of
            (Some e, s'') \<Rightarrow> (Some e, s'')
          | (None, s'') \<Rightarrow> (None, stop_players s'')))"

section \<open>The caches as objects\<close>

text \<open>Whether two instances share a cache depends on which dict object each attribute
  names, so the class body and the constructor are also modelled on a store of dict
  objects. The class body binds the three class attributes to three empty dicts; the
  constructor binds the three attributes of the new instance to three new dicts; an
  attribute read through an instance finds the instance's binding first, and the class's
  when the instance has none.\<close>

record object_store =
  heap :: "nat \<rightharpoonup> cache"
  next_addr :: nat
  class_attr :: "track \<rightharpoonup> nat"
  instance_attr :: "nat \<Rightarrow> track \<rightharpoonup> nat"

definition alloc :: "cache \<Rightarrow> object_store \<Rightarrow> nat \<times> object_store" where
  "alloc d st =
     (next_addr st, st\<lparr>heap := (heap st)(next_addr st \<mapsto> d), next_addr := next_addr st + 1\<rparr>)"

definition bind_class :: "track \<Rightarrow> cache \<Rightarrow> object_store \<Rightarrow> object_store" where
  "bind_class trk d st =
     (case alloc d st of (a, st') \<Rightarrow> st'\<lparr>class_attr := (class_attr st')(trk \<mapsto> a)\<rparr>)"

definition bind_instance :: "nat \<Rightarrow> track \<Rightarrow> cache \<Rightarrow> object_store \<Rightarrow> object_store" where
  "bind_instance obj trk d st =
     (case alloc d st of (a, st') \<Rightarrow>
        st'\<lparr>instance_attr := (instance_attr st')(obj := (instance_attr st' obj)(trk \<mapsto> a))\<rparr>)"

text \<open>Lines 115 to 118, the class body.\<close>

definition class_body :: object_store where
  "class_body =
     bind_class Drums Map.empty (bind_class Bass Map.empty (bind_class Melody Map.empty
       \<lparr>heap = Map.empty, next_addr = 0, class_attr = Map.empty,
        instance_attr = (\<lambda>obj. Map.empty)\<rparr>))"

text \<open>Lines 131 to 136 of \<open>__init__\<close>, for the new instance \<open>obj\<close>.\<close>

definition construct :: "config \<Rightarrow> nat \<Rightarrow> object_store \<Rightarrow> py_error + object_store" where
  "construct cfg obj st =
     (if (clock_signal cfg = None) = (tick_duration_arg cfg = None) then Inl ValueError
      else
        (let d = map_of (map (\<lambda>p. (name p, None)) (STRUCTURE cfg))
         in Inr (bind_instance obj Drums d (bind_instance obj Bass d
                   (bind_instance obj Melody d st)))))"

text \<open>\<open>self.X_CACHE\<close>, \<open>self.X_CACHE[nm]\<close> and \<open>self.X_CACHE[nm] = v\<close>.\<close>

definition cache_object :: "object_store \<Rightarrow> nat \<Rightarrow> track \<Rightarrow> nat option" where
  "cache_object st obj trk =
     (case instance_attr st obj trk of Some a \<Rightarrow> Some a | None \<Rightarrow> class_attr st trk)"

definition cache_read ::
  "object_store \<Rightarrow> nat \<Rightarrow> track \<Rightarrow> string \<Rightarrow> py_error + CacheItem option" where
  "cache_read st obj trk nm =
     (case cache_object st obj trk of
        None \<Rightarrow> Inl AttributeError
      | Some a \<Rightarrow>
         (case heap st a of
            None \<Rightarrow> Inl AttributeError
          | Some d \<Rightarrow> (case d nm of None \<Rightarrow> Inl KeyError | Some v \<Rightarrow> Inr v)))"

definition cache_write ::
  "object_store \<Rightarrow> nat \<Rightarrow> track \<Rightarrow> string \<Rightarrow> CacheItem option \<Rightarrow> py_error + object_store" where
  "cache_write st obj trk nm v =
     (case cache_object st obj trk of
        None \<Rightarrow> Inl AttributeError
      | Some a \<Rightarrow>
         (case heap st a of
            None \<Rightarrow> Inl AttributeError
          | Some d \<Rightarrow> Inr (st\<lparr>heap := (heap st)(a \<mapsto> d(nm \<mapsto> v))\<rparr>)))"

section \<open>Vocabulary of the properties\<close>

definition to_seq_note :: "int \<Rightarrow> Note \<Rightarrow> seq_note" where
  "to_seq_note instr n =
     \<lparr>note_pitch = pitch n, note_velocity = velocity n, start_time = start n,
      end_time = ending n, instrument = instr, is_drum = False, program = 0\<rparr>"

text \<open>The note of pitch \<open>p\<close> in the block chord at position \<open>i\<close>, for the start time \<open>t\<close>.\<close>

definition chord_note :: "real \<Rightarrow> nat \<Rightarrow> int \<Rightarrow> seq_note" where
  "chord_note t i p =
     \<lparr>note_pitch = p, note_velocity = 80, start_time = real i * (1 / 2) + t,
      end_time = real i * (1 / 2) + 1 / 2 + t, instrument = 0, is_drum = False, program = 0\<rparr>"

text \<open>Every note of the sequence starts and ends within \<open>[a, b]\<close>.\<close>

definition within_window :: "NoteSequence \<Rightarrow> real \<Rightarrow> real \<Rightarrow> bool" where
  "within_window sq a b =
     list_all (\<lambda>n. a \<le> start_time n \<and> start_time n \<le> b \<and> end_time n \<le> b) (seq_notes sq)"

text \<open>The item a cache holds for a name, if it holds one.\<close>

definition cached :: "state \<Rightarrow> track \<Rightarrow> string \<Rightarrow> CacheItem option" where
  "cached s trk nm = (case caches s trk nm of Some (Some item) \<Rightarrow> Some item | _ \<Rightarrow> None)"

text \<open>What a tick adds to the calls on the players and on the generators.\<close>

definition new_playback :: "state \<Rightarrow> state \<Rightarrow> playback_event list" where
  "new_playback s s' = drop (length (playback s)) (playback s')"

definition new_calls :: "state \<Rightarrow> state \<Rightarrow> gen_call list" where
  "new_calls s s' = drop (length (gen_log s)) (gen_log s')"

text \<open>The values the body of the loop computes from the incoming state and the tick: the
  tick's duration, whether the tick starts a part, and which part is current.\<close>

definition tick_duration :: "state \<Rightarrow> tick \<Rightarrow> real" where
  "tick_duration s tk = total_time (captured_sequence tk) - last_tick_time s"

definition start_of_part :: "state \<Rightarrow> bool" where
  "start_of_part s = (bars_played_for_part (advance_part s) = 0)"

definition current_part :: "config \<Rightarrow> state \<Rightarrow> Part option" where
  "current_part cfg s =
     (if part_in_song (advance_part s) < length (STRUCTURE cfg)
      then Some (STRUCTURE cfg ! part_in_song (advance_part s)) else None)"

text \<open>The start time after the three consultations: the anchor of the last track that
  hit, in the order melody, bass, drums, and the tick's time when none hit.\<close>

definition last_hit_anchor :: "state \<Rightarrow> string \<Rightarrow> real \<Rightarrow> real" where
  "last_hit_anchor s nm tick_time =
     (case cached s Drums nm of
        Some item \<Rightarrow> anchor item
      | None \<Rightarrow>
         (case cached s Bass nm of
            Some item \<Rightarrow> anchor item
          | None \<Rightarrow>
             (case cached s Melody nm of
                Some item \<Rightarrow> anchor item
              | None \<Rightarrow> tick_time)))"

text \<open>An update that flushes a player: the empty sequence, with no start time.\<close>

definition flush_count :: "nat \<Rightarrow> state \<Rightarrow> nat" where
  "flush_count ch s =
     length (filter (\<lambda>e. e = UpdateSequence ch empty_sequence None) (playback s))"

fun scheduled_start :: "playback_event \<Rightarrow> real option" where
  "scheduled_start (UpdateSequence ch sq t) = t"
| "scheduled_start (StartPlayback ch sq) = None"
| "scheduled_start (StopPlayer ch) = None"

fun channel_of :: "playback_event \<Rightarrow> nat" where
  "channel_of (UpdateSequence ch sq t) = ch"
| "channel_of (StartPlayback ch sq) = ch"
| "channel_of (StopPlayer ch) = ch"

text \<open>The lateness test of line 346 for the start time \<open>r\<close> and the tick duration \<open>T\<close>,
  and the time by which a late response is pushed.\<close>

definition too_late :: "tick \<Rightarrow> real \<Rightarrow> real \<Rightarrow> bool" where
  "too_late tk T r = (clock_check tk - r \<ge> T / 4)"

definition push_delta :: "tick \<Rightarrow> real \<Rightarrow> real \<Rightarrow> real" where
  "push_delta tk T r = (if too_late tk T r then push_ticks tk T r * T else 0)"

section \<open>A sample performance\<close>

text \<open>A trimming function with the library's documented behaviour (notes that start
  outside the window are dropped, notes that end after it are cut), a generator that
  answers with one note before and one note across the end of the requested section, the
  structure of two parts, and ticks one second apart.\<close>

definition trim_window :: "NoteSequence \<Rightarrow> real \<Rightarrow> real \<Rightarrow> NoteSequence" where
  "trim_window sq a b =
     sq\<lparr>seq_notes := map (\<lambda>n. n\<lparr>end_time := min (end_time n) b\<rparr>)
                        (filter (\<lambda>n. a \<le> start_time n \<and> start_time n < b) (seq_notes sq)),
        total_time := min (total_time sq) b\<rparr>"

definition demo_note :: "int \<Rightarrow> real \<Rightarrow> real \<Rightarrow> seq_note" where
  "demo_note p a b =
     \<lparr>note_pitch = p, note_velocity = 100, start_time = a, end_time = b, instrument = 0,
      is_drum = False, program = 0\<rparr>"

definition demo_generator :: generator where
  "demo_generator seed inp opts =
     (case generate_sections opts of
        [] \<Rightarrow> Inl GenerationFailure
      | (a, b) # _ \<Rightarrow>
          Inr \<lparr>seq_notes = [demo_note (60 + int seed) (a - 1) a,
                            demo_note (60 + int seed) a (b + 1)],
               total_time = b + 1, tempos = tempos inp\<rparr>)"

definition demo_structure :: "Part list" where
  "demo_structure =
     [\<lparr>name = ''A'', duration = 4, get_midi_chords = [[60, 64, 67], [55, 59, 62]]\<rparr>,
      \<lparr>name = ''B'', duration = 2, get_midi_chords = [[57, 60, 64]]\<rparr>]"

definition demo_cfg :: config where
  "demo_cfg =
     \<lparr>STRUCTURE = demo_structure,
      sequence_generators = [demo_generator, demo_generator, demo_generator],
      default_qpm = 120, clock_signal = None, tick_duration_arg = Some 1,
      metronome_channel = None, tempo_control_number = None,
      temperature_control_number = None, end_call_signal = None, panic_signal = Some 1,
      mutate_signal = None, trim_note_sequence = trim_window\<rparr>"

text \<open>The tick whose captured sequence ends at \<open>t\<close>, with the wall clock read at \<open>c1\<close>
  and then at \<open>c2\<close>.\<close>

definition demo_tick :: "real \<Rightarrow> real \<Rightarrow> real \<Rightarrow> tick" where
  "demo_tick t c1 c2 =
     \<lparr>captured_sequence = \<lparr>seq_notes = [], total_time = t, tempos = [120]\<rparr>,
      captor_start_time = 0, controls = Map.empty, clock_check = c1, clock_push = c2\<rparr>"

text \<open>The state in which the loop of the sample performance starts, at time 0.\<close>

definition demo_start :: state where
  "demo_start = snd (run_init demo_cfg Map.empty 0 0 (new_instance demo_cfg))"

text \<open>Two instances constructed one after the other from the class as its body leaves it,
  and a write through one instance followed by a read through another.\<close>

definition two_instances ::
  "config \<Rightarrow> nat \<Rightarrow> config \<Rightarrow> nat \<Rightarrow> py_error + object_store" where
  "two_instances cfg1 obj1 cfg2 obj2 =
     (case construct cfg1 obj1 class_body of
        Inl e \<Rightarrow> Inl e
      | Inr st \<Rightarrow> construct cfg2 obj2 st)"

definition write_then_read ::
  "py_error + object_store \<Rightarrow> nat \<Rightarrow> track \<Rightarrow> string \<Rightarrow> CacheItem option
     \<Rightarrow> nat \<Rightarrow> track \<Rightarrow> string \<Rightarrow> py_error + CacheItem option" where
  "write_then_read r obj trk nm v obj' trk' nm' =
     (case r of
        Inl e \<Rightarrow> Inl e
      | Inr st \<Rightarrow>
         (case cache_write st obj trk nm v of
            Inl e \<Rightarrow> Inl e
          | Inr st' \<Rightarrow> cache_read st' obj' trk' nm'))"

definition demo_item :: CacheItem where
  "demo_item = \<lparr>sequence = \<lparr>seq_notes = [demo_note 60 1 5], total_time = 5, tempos = [120]\<rparr>,
                anchor = 0\<rparr>"

section \<open>Sequences and the gateway\<close>

lemma seq_notes_add_track:
  "seq_notes (add_track_to_sequence sq instr ns) = seq_notes sq @ map (to_seq_note instr) ns"
  unfolding add_track_to_sequence_def
  by (induction ns arbitrary: sq) (simp_all add: add_note_def to_seq_note_def)

lemma chord_track_list:
  "seq_notes (chord_track part t) =
     concat (map (\<lambda>(i, chord). map (chord_note t i) chord) (enumerate 0 (get_midi_chords part)))"
  by (simp add: chord_track_def seq_notes_add_track chord_notes_def shift_chord_notes_def
      generate_midi_chord_def empty_sequence_def map_concat to_seq_note_def chord_note_def[abs_def]
      comp_def case_prod_unfold)


lemma trim_window_within: "within_window (trim_window sq a b) a b"
  by (auto simp: within_window_def trim_window_def list_all_iff)

section \<open>The steps of a part boundary\<close>

lemma adjust_sequence_times_0 [simp]: "adjust_sequence_times sq 0 = sq"
  by (simp add: adjust_sequence_times_def adjust_note_def map_idI)

lemma generate_calls:
  "generate cfg tk seed i inp z a b = (r, calls) \<Longrightarrow> \<forall>c \<in> set calls. call_index c = i"
  by (auto simp: generate_def Let_def split: if_splits sum.splits)

lemma generate_Inr_calls:
  "generate cfg tk seed i inp z a b = (Inr sq, calls) \<Longrightarrow> length calls = 1"
  by (auto simp: generate_def Let_def split: if_splits sum.splits)

lemma lookup_hit:
  "cached s trk (name part) = Some item \<Longrightarrow>
     lookup_or_generate cfg tk cap part trk s =
       (Inr (sequence item), s\<lparr>response_start_time := anchor item\<rparr>)"
  by (auto simp: lookup_or_generate_def cached_def split: option.splits)

lemma lookup_miss:
  assumes "cached s trk (name part) = None"
    and "lookup_or_generate cfg tk cap part trk s = (Inr sq, s')"
  shows "\<exists>calls. s' = s\<lparr>gen_log := gen_log s @ calls,
                caches := (caches s)(trk := (caches s trk)(name part \<mapsto>
                     Some \<lparr>sequence = sq, anchor = captor_start_time tk\<rparr>))\<rparr>
            \<and> length calls = 1 \<and> (\<forall>c \<in> set calls. call_index c = gen_index trk)"
proof -
  from assms obtain calls where
    g: "generate cfg tk (length (gen_log s)) (gen_index trk) cap (captor_start_time tk)
          (response_start_time s) (response_start_time s + response_duration s) = (Inr sq, calls)"
    and s': "s' = s\<lparr>gen_log := gen_log s @ calls,
                caches := (caches s)(trk := (caches s trk)(name part \<mapsto>
                     Some \<lparr>sequence = sq, anchor = captor_start_time tk\<rparr>))\<rparr>"
    by (auto simp: lookup_or_generate_def cached_def
        split: option.splits prod.splits sum.splits)
  from g have "length calls = 1" "\<forall>c \<in> set calls. call_index c = gen_index trk"
    by (rule generate_Inr_calls, rule generate_calls)
  with s' show ?thesis by blast
qed

lemma lookup_any:
  assumes "lookup_or_generate cfg tk cap part trk s = (r, s')"
  shows "playback s' = playback s \<and> stop_signal s' = stop_signal s \<and> panic s' = panic s
     \<and> (\<forall>t nm it. cached s t nm = Some it \<longrightarrow> cached s' t nm = Some it)
     \<and> (\<exists>calls. gen_log s' = gen_log s @ calls \<and> (\<forall>c \<in> set calls. call_index c = gen_index trk))"
  using assms
  by (auto simp: lookup_or_generate_def cached_def
      split: option.splits prod.splits sum.splits if_splits dest: generate_calls)


lemma lookup_Inr:
  assumes "lookup_or_generate cfg tk cap part trk s = (Inr sq, s')"
  shows "\<exists>calls it.
     s' = s\<lparr>response_start_time :=
               (case cached s trk (name part) of Some i \<Rightarrow> anchor i
                | None \<Rightarrow> response_start_time s),
             gen_log := gen_log s @ calls,
             caches := (caches s)(trk := (caches s trk)(name part \<mapsto> Some it))\<rparr>
     \<and> it = (case cached s trk (name part) of Some i \<Rightarrow> i
             | None \<Rightarrow> \<lparr>sequence = sq, anchor = captor_start_time tk\<rparr>)
     \<and> sequence it = sq
     \<and> map call_index calls =
         (case cached s trk (name part) of Some i \<Rightarrow> [] | None \<Rightarrow> [gen_index trk])"
proof (cases "cached s trk (name part)")
  case None
  from lookup_miss [OF None assms] obtain calls where
    s': "s' = s\<lparr>gen_log := gen_log s @ calls,
                caches := (caches s)(trk := (caches s trk)(name part \<mapsto>
                     Some \<lparr>sequence = sq, anchor = captor_start_time tk\<rparr>))\<rparr>"
    and l: "length calls = 1" and c: "\<forall>c \<in> set calls. call_index c = gen_index trk"
    by blast
  from l c have "map call_index calls = [gen_index trk]"
    by (cases calls) auto
  with s' None show ?thesis
    by (intro exI [of _ calls] exI [of _ "\<lparr>sequence = sq, anchor = captor_start_time tk\<rparr>"]) simp
next
  case (Some i)
  from lookup_hit [OF Some, of cfg tk cap] assms
  have sq: "sq = sequence i" and s': "s' = s\<lparr>response_start_time := anchor i\<rparr>"
    by simp_all
  have c: "caches s trk (name part) = Some (Some i)"
    using Some by (auto simp: cached_def split: option.splits)
  have "(caches s)(trk := (caches s trk)(name part \<mapsto> Some i)) = caches s"
    using c by (simp add: fun_upd_idem)
  with Some sq s' show ?thesis
    by (intro exI [of _ "[]"] exI [of _ i]) simp
qed

lemma latency_not_late:
  "\<not> too_late tk T (response_start_time s) \<Longrightarrow> latency_push tk part T seqs s = (Inr seqs, s)"
  by (simp add: latency_push_def too_late_def split: prod.splits)

lemma latency_Inr:
  assumes "latency_push tk part T (m, b, c, d) s = (Inr seqs, s')"
    and "cached s Melody (name part) = Some im"
    and "cached s Bass (name part) = Some ib"
    and "cached s Drums (name part) = Some idr"
  shows "seqs = (adjust_sequence_times m (push_delta tk T (response_start_time s)),
                 adjust_sequence_times b (push_delta tk T (response_start_time s)),
                 adjust_sequence_times c (push_delta tk T (response_start_time s)),
                 adjust_sequence_times d (push_delta tk T (response_start_time s)))
     \<and> (too_late tk T (response_start_time s) \<longrightarrow> T \<noteq> 0)
     \<and> s' = (if too_late tk T (response_start_time s) then
               s\<lparr>response_start_time :=
                    response_start_time s + push_delta tk T (response_start_time s),
                 caches := (caches s)
                   (Melody := (caches s Melody)(name part \<mapsto> Some (im\<lparr>anchor :=
                      response_start_time s + push_delta tk T (response_start_time s)\<rparr>)),
                    Bass := (caches s Bass)(name part \<mapsto> Some (ib\<lparr>anchor :=
                      response_start_time s + push_delta tk T (response_start_time s)\<rparr>)),
                    Drums := (caches s Drums)(name part \<mapsto> Some (idr\<lparr>anchor :=
                      response_start_time s + push_delta tk T (response_start_time s)\<rparr>)))\<rparr>
             else s)"
proof (cases "too_late tk T (response_start_time s)")
  case False
  with assms(1) show ?thesis
    by (simp add: latency_not_late push_delta_def)
next
  case True
  have c: "caches s Melody (name part) = Some (Some im)"
    "caches s Bass (name part) = Some (Some ib)"
    "caches s Drums (name part) = Some (Some idr)"
    using assms(2-4) by (auto simp: cached_def split: option.splits)
  from True assms(1) have T: "T \<noteq> 0"
    by (auto simp: latency_push_def too_late_def split: if_splits)
  with True assms(1) c show ?thesis
    by (simp add: latency_push_def too_late_def push_delta_def set_anchor_def Let_def)
qed

lemma part_boundary_decomp:
  assumes "part_boundary cfg tk cap part T s = (Continue, s')"
  obtains m sm b sb d sd seqs sl where
    "lookup_or_generate cfg tk cap part Melody s = (Inr m, sm)"
    "lookup_or_generate cfg tk cap part Bass sm = (Inr b, sb)"
    "lookup_or_generate cfg tk cap part Drums sb = (Inr d, sd)"
    "latency_push tk part T (m, b, chord_track part (response_start_time sd), d) sd = (Inr seqs, sl)"
    "s' = dispatch seqs sl"
  using assms
  by (auto simp: part_boundary_def split: prod.splits sum.splits)


lemma part_boundary_Continue:
  assumes pb: "part_boundary cfg tk cap part T s = (Continue, s')"
  defines "nm \<equiv> name part"
  defines "r0 \<equiv> last_hit_anchor s nm (response_start_time s)"
  defines "dl \<equiv> push_delta tk T r0"
  shows "\<exists>im ib idr.
      cached s' Melody nm = Some im \<and> cached s' Bass nm = Some ib
    \<and> cached s' Drums nm = Some idr
    \<and> (\<forall>it0. cached s Melody nm = Some it0 \<longrightarrow>
          sequence im = sequence it0 \<and> (\<not> too_late tk T r0 \<longrightarrow> im = it0))
    \<and> (\<forall>it0. cached s Bass nm = Some it0 \<longrightarrow>
          sequence ib = sequence it0 \<and> (\<not> too_late tk T r0 \<longrightarrow> ib = it0))
    \<and> (\<forall>it0. cached s Drums nm = Some it0 \<longrightarrow>
          sequence idr = sequence it0 \<and> (\<not> too_late tk T r0 \<longrightarrow> idr = it0))
    \<and> (cached s Melody nm = None \<and> \<not> too_late tk T r0 \<longrightarrow> anchor im = captor_start_time tk)
    \<and> (cached s Bass nm = None \<and> \<not> too_late tk T r0 \<longrightarrow> anchor ib = captor_start_time tk)
    \<and> (cached s Drums nm = None \<and> \<not> too_late tk T r0 \<longrightarrow> anchor idr = captor_start_time tk)
    \<and> (too_late tk T r0 \<longrightarrow>
          T \<noteq> 0 \<and> anchor im = r0 + dl \<and> anchor ib = r0 + dl \<and> anchor idr = r0 + dl)
    \<and> response_start_time s' = r0 + dl
    \<and> playback s' = playback s @
         [UpdateSequence 1 (adjust_sequence_times (sequence im) dl) (Some (r0 + dl)),
          UpdateSequence 2 (adjust_sequence_times (sequence ib) dl) (Some (r0 + dl)),
          UpdateSequence 3 (adjust_sequence_times (chord_track part r0) dl) (Some (r0 + dl)),
          UpdateSequence 9 (adjust_sequence_times (sequence idr) dl) (Some (r0 + dl))]
    \<and> map call_index (new_calls s s') =
         map gen_index (filter (\<lambda>trk. cached s trk nm = None) [Melody, Bass, Drums])"
proof -
  from pb obtain m sm b sb d sd seqs sl where
    l1: "lookup_or_generate cfg tk cap part Melody s = (Inr m, sm)" and
    l2: "lookup_or_generate cfg tk cap part Bass sm = (Inr b, sb)" and
    l3: "lookup_or_generate cfg tk cap part Drums sb = (Inr d, sd)" and
    lp: "latency_push tk part T (m, b, chord_track part (response_start_time sd), d) sd
           = (Inr seqs, sl)" and
    s': "s' = dispatch seqs sl"
    by (rule part_boundary_decomp)
  from lookup_Inr [OF l1] obtain c1 i1 where
    sm: "sm = s\<lparr>response_start_time :=
               (case cached s Melody nm of Some i \<Rightarrow> anchor i
                | None \<Rightarrow> response_start_time s),
             gen_log := gen_log s @ c1,
             caches := (caches s)(Melody := (caches s Melody)(nm \<mapsto> Some i1))\<rparr>"
    and i1: "i1 = (case cached s Melody nm of Some i \<Rightarrow> i
             | None \<Rightarrow> \<lparr>sequence = m, anchor = captor_start_time tk\<rparr>)"
    and m: "sequence i1 = m"
    and c1: "map call_index c1 =
         (case cached s Melody nm of Some i \<Rightarrow> [] | None \<Rightarrow> [gen_index Melody])"
    unfolding nm_def by blast
  from lookup_Inr [OF l2] obtain c2 i2 where
    sb: "sb = sm\<lparr>response_start_time :=
               (case cached sm Bass nm of Some i \<Rightarrow> anchor i
                | None \<Rightarrow> response_start_time sm),
             gen_log := gen_log sm @ c2,
             caches := (caches sm)(Bass := (caches sm Bass)(nm \<mapsto> Some i2))\<rparr>"
    and i2: "i2 = (case cached sm Bass nm of Some i \<Rightarrow> i
             | None \<Rightarrow> \<lparr>sequence = b, anchor = captor_start_time tk\<rparr>)"
    and b: "sequence i2 = b"
    and c2: "map call_index c2 =
         (case cached sm Bass nm of Some i \<Rightarrow> [] | None \<Rightarrow> [gen_index Bass])"
    unfolding nm_def by blast
  from lookup_Inr [OF l3] obtain c3 i3 where
    sd: "sd = sb\<lparr>response_start_time :=
               (case cached sb Drums nm of Some i \<Rightarrow> anchor i
                | None \<Rightarrow> response_start_time sb),
             gen_log := gen_log sb @ c3,
             caches := (caches sb)(Drums := (caches sb Drums)(nm \<mapsto> Some i3))\<rparr>"
    and i3: "i3 = (case cached sb Drums nm of Some i \<Rightarrow> i
             | None \<Rightarrow> \<lparr>sequence = d, anchor = captor_start_time tk\<rparr>)"
    and d: "sequence i3 = d"
    and c3: "map call_index c3 =
         (case cached sb Drums nm of Some i \<Rightarrow> [] | None \<Rightarrow> [gen_index Drums])"
    unfolding nm_def by blast
  have kb: "cached sm Bass nm = cached s Bass nm"
    by (simp add: sm cached_def)
  note sb = sb [unfolded kb] and i2 = i2 [unfolded kb] and c2 = c2 [unfolded kb]
  have kd: "cached sb Drums nm = cached s Drums nm"
    by (simp add: sb sm cached_def)
  note sd = sd [unfolded kd] and i3 = i3 [unfolded kd] and c3 = c3 [unfolded kd]
  have rsm: "response_start_time sm =
      (case cached s Melody nm of Some i \<Rightarrow> anchor i | None \<Rightarrow> response_start_time s)"
    by (simp add: sm)
  have rsb: "response_start_time sb =
      (case cached s Bass nm of Some i \<Rightarrow> anchor i | None \<Rightarrow> response_start_time sm)"
    by (subst sb) simp
  have rsd: "response_start_time sd =
      (case cached s Drums nm of Some i \<Rightarrow> anchor i | None \<Rightarrow> response_start_time sb)"
    by (subst sd) simp
  have r0: "response_start_time sd = r0"
    by (simp add: rsm rsb rsd r0_def last_hit_anchor_def split: option.splits)
  have cm: "cached sd Melody nm = Some i1" and cb: "cached sd Bass nm = Some i2"
    and cd: "cached sd Drums nm = Some i3"
    by (simp_all add: sd sb sm cached_def)
  from latency_Inr [OF lp cm [unfolded nm_def] cb [unfolded nm_def] cd [unfolded nm_def]]
  have seqs: "seqs = (adjust_sequence_times m dl, adjust_sequence_times b dl,
                      adjust_sequence_times (chord_track part r0) dl,
                      adjust_sequence_times d dl)"
    and T: "too_late tk T r0 \<longrightarrow> T \<noteq> 0"
    and sl: "sl = (if too_late tk T r0 then
               sd\<lparr>response_start_time := r0 + dl,
                 caches := (caches sd)
                   (Melody := (caches sd Melody)(nm \<mapsto> Some (i1\<lparr>anchor := r0 + dl\<rparr>)),
                    Bass := (caches sd Bass)(nm \<mapsto> Some (i2\<lparr>anchor := r0 + dl\<rparr>)),
                    Drums := (caches sd Drums)(nm \<mapsto> Some (i3\<lparr>anchor := r0 + dl\<rparr>)))\<rparr>
             else sd)"
    unfolding r0 dl_def nm_def by simp_all
  have dl0: "\<not> too_late tk T r0 \<Longrightarrow> dl = 0"
    by (simp add: dl_def push_delta_def)
  show ?thesis
  proof (cases "too_late tk T r0")
    case True
    show ?thesis
      apply (rule exI [of _ "i1\<lparr>anchor := r0 + dl\<rparr>"])
      apply (rule exI [of _ "i2\<lparr>anchor := r0 + dl\<rparr>"])
      apply (rule exI [of _ "i3\<lparr>anchor := r0 + dl\<rparr>"])
      using True T m b d c1 c2 c3
      by (auto simp: s' sl seqs dispatch_def sd sb sm cached_def i1 i2 i3 new_calls_def
          split: option.splits)
  next
    case False
    show ?thesis
      apply (rule exI [of _ i1])
      apply (rule exI [of _ i2])
      apply (rule exI [of _ i3])
      using False dl0 r0 m b d c1 c2 c3
      by (auto simp: s' sl seqs dispatch_def sd sb sm cached_def i1 i2 i3 new_calls_def
          split: option.splits)
  qed
qed


lemma latency_any:
  assumes "latency_push tk part T seqs s = (r, s')"
  shows "playback s' = playback s \<and> stop_signal s' = stop_signal s \<and> panic s' = panic s
     \<and> gen_log s' = gen_log s
     \<and> (\<forall>t nm it. cached s t nm = Some it \<longrightarrow>
           (\<exists>it'. cached s' t nm = Some it' \<and> sequence it' = sequence it))"
  using assms
  by (auto simp: latency_push_def set_anchor_def cached_def Let_def
      split: option.splits prod.splits sum.splits if_splits)

lemma advance_part_frame [simp]:
  "bars_played_for_part (advance_part (metronome cfg q t (panic_flush s))) =
     bars_played_for_part (advance_part s)"
  "part_in_song (advance_part (metronome cfg q t (panic_flush s))) =
     part_in_song (advance_part s)"
  "caches (advance_part (metronome cfg q t (panic_flush s))) = caches s"
  "gen_log (advance_part (metronome cfg q t (panic_flush s))) = gen_log s"
  "playback (advance_part (metronome cfg q t (panic_flush s))) = playback (panic_flush s)"
  "last_tick_time (metronome cfg q t (panic_flush s)) = last_tick_time s"
  "stop_signal (advance_part (metronome cfg q t (panic_flush s))) = stop_signal s"
  "panic (advance_part (metronome cfg q t (panic_flush s))) = False"
  by (simp_all add: advance_part_def metronome_def panic_flush_def)

lemma bookkeeping_frame [simp]:
  "caches (bookkeeping part tt T s) = caches s"
  "gen_log (bookkeeping part tt T s) = gen_log s"
  "playback (bookkeeping part tt T s) = playback s"
  "stop_signal (bookkeeping part tt T s) = stop_signal s"
  "panic (bookkeeping part tt T s) = panic s"
  "response_start_time (bookkeeping part tt T s) = tt"
  by (simp_all add: bookkeeping_def)

lemma cached_cong: "caches s = caches s' \<Longrightarrow> cached s = cached s'"
  by (simp add: cached_def fun_eq_iff)

lemma tick_body_boundary:
  assumes "tick_body cfg s tk = (Continue, s')" and "start_of_part s"
  obtains part cap s4 where
    "current_part cfg s = Some part"
    "part_boundary cfg tk cap part (tick_duration s tk) s4 = (Continue, s')"
    "caches s4 = caches s" "gen_log s4 = gen_log s" "playback s4 = playback (panic_flush s)"
    "response_start_time s4 = total_time (captured_sequence tk)"
    "\<not> stop_signal s"
  using assms
  by (auto simp: tick_body_def Let_def start_of_part_def current_part_def tick_duration_def
      split: if_splits sum.splits)


section \<open>The chord track and the gateway\<close>

text \<open>Claim C9. For every part and every start time \<open>t\<close>, the chord track built at a part
  boundary (lines 336 to 343) consists of exactly the notes \<open>chord_note t i p\<close>, in the order
  of the progression: for each position \<open>i\<close> of the progression and each pitch \<open>p\<close> of the
  chord there, a note of velocity 80 that starts at \<open>i * 0.5 + t\<close> and ends at
  \<open>i * 0.5 + 0.5 + t\<close>.\<close>

theorem chord_track_block_chords:
  "seq_notes (chord_track part t) =
     concat (map (\<lambda>(i, chord). map (chord_note t i) chord) (enumerate 0 (get_midi_chords part)))
   \<and> (\<forall>i < length (get_midi_chords part). \<forall>p \<in> set (get_midi_chords part ! i).
         chord_note t i p \<in> set (seq_notes (chord_track part t))
         \<and> note_velocity (chord_note t i p) = 80
         \<and> start_time (chord_note t i p) = real i * 0.5 + t
         \<and> end_time (chord_note t i p) = real i * 0.5 + 0.5 + t)"
proof (intro conjI allI impI ballI)
  show l: "seq_notes (chord_track part t) =
     concat (map (\<lambda>(i, chord). map (chord_note t i) chord) (enumerate 0 (get_midi_chords part)))"
    by (rule chord_track_list)
  fix i p
  assume i: "i < length (get_midi_chords part)" and p: "p \<in> set (get_midi_chords part ! i)"
  have "(i, get_midi_chords part ! i) \<in> set (enumerate 0 (get_midi_chords part))"
    using i by (simp add: in_set_enumerate_eq)
  then show "chord_note t i p \<in> set (seq_notes (chord_track part t))"
    unfolding l using p by force
qed (simp_all add: chord_note_def)

theorem chord_track_block_chords_witness:
  "(1::nat) < length (get_midi_chords (demo_structure ! 0))
   \<and> 59 \<in> set (get_midi_chords (demo_structure ! 0) ! 1)
   \<and> \<lparr>note_pitch = 59, note_velocity = 80, start_time = 3 / 2, end_time = 2,
       instrument = 0, is_drum = False, program = 0\<rparr>
       \<in> set (seq_notes (chord_track (demo_structure ! 0) 1))
   \<and> length (seq_notes (chord_track (demo_structure ! 0) 1)) = 6"
proof -
  have a: "(1::nat) < length (get_midi_chords (demo_structure ! 0))"
    by (simp add: demo_structure_def)
  have b: "59 \<in> set (get_midi_chords (demo_structure ! 0) ! 1)"
    by (simp add: demo_structure_def)
  note inst = chord_track_block_chords [of "demo_structure ! 0" 1]
  from inst a b have "chord_note 1 1 59 \<in> set (seq_notes (chord_track (demo_structure ! 0) 1))"
    by blast
  moreover have "chord_note 1 1 59 =
      \<lparr>note_pitch = 59, note_velocity = 80, start_time = 3 / 2, end_time = 2,
       instrument = 0, is_drum = False, program = 0\<rparr>"
    by (simp add: chord_note_def)
  moreover from inst have "length (seq_notes (chord_track (demo_structure ! 0) 1)) = 6"
    by (simp add: demo_structure_def enumerate_eq_zip upt_rec_numeral)
  ultimately show ?thesis using a b by simp
qed



section \<open>The caches of two instances\<close>

lemmas store_defs = two_instances_def construct_def class_body_def bind_class_def
  bind_instance_def alloc_def cache_object_def cache_read_def cache_write_def
  write_then_read_def

lemma two_instances_shape:
  assumes "two_instances cfg1 obj1 cfg2 obj2 = Inr st" and "obj1 \<noteq> obj2"
  shows "cache_object st obj1 trk = Some (3 + gen_index trk)"
    and "cache_object st obj2 trk = Some (6 + gen_index trk)"
    and "class_attr st trk = Some (gen_index trk)"
    and "\<exists>d. heap st (3 + gen_index trk) = Some d"
    and "heap st (6 + gen_index trk) =
           Some (map_of (map (\<lambda>p. (name p, None)) (STRUCTURE cfg2)))"
  using assms
  by (cases trk; auto simp: store_defs Let_def split: if_splits)+

text \<open>Claim C8, as stated, fails: of two instances constructed for the sample structure,
  the first reads back the item it wrote for part A, and the second still reads \<open>None\<close>
  there.\<close>

theorem shared_cache_counterexample:
  "write_then_read (two_instances demo_cfg 0 demo_cfg 1) 0 Melody ''A'' (Some demo_item)
      0 Melody ''A'' = Inr (Some demo_item)
   \<and> write_then_read (two_instances demo_cfg 0 demo_cfg 1) 0 Melody ''A'' (Some demo_item)
      1 Melody ''A'' = Inr None"
  by (simp add: store_defs demo_cfg_def demo_structure_def Let_def)

text \<open>Claim C8, amended. The class body binds the three cache attributes to class-level
  dicts, but the constructor rebinds each of them on the new instance to a dict of its own,
  so for two independently constructed instances every cache attribute names a dict that
  is neither a cache of the other instance nor a class-level dict; an entry written through
  one instance is read back through that instance, and every read through the other
  instance is unchanged.\<close>

theorem caches_per_instance:
  assumes "two_instances cfg1 obj1 cfg2 obj2 = Inr st" and "obj1 \<noteq> obj2"
  shows "cache_object st obj1 trk \<noteq> cache_object st obj2 trk'
     \<and> cache_object st obj1 trk \<noteq> class_attr st trk'
     \<and> cache_object st obj2 trk \<noteq> class_attr st trk'
     \<and> (\<exists>st'. cache_write st obj1 trk nm v = Inr st'
            \<and> cache_read st' obj1 trk nm = Inr v
            \<and> cache_read st' obj2 trk' nm' = cache_read st obj2 trk' nm')"
proof -
  note sh = two_instances_shape [OF assms]
  obtain d where d: "heap st (3 + gen_index trk) = Some d"
    using sh(4) by blast
  have w: "cache_write st obj1 trk nm v =
      Inr (st\<lparr>heap := (heap st)(3 + gen_index trk \<mapsto> d(nm \<mapsto> v))\<rparr>)"
    by (simp add: cache_write_def sh(1) d)
  have a: "cache_object (st\<lparr>heap := h\<rparr>) obj t = cache_object st obj t" for h obj t
    by (simp add: cache_object_def split: option.splits)
  have ne: "3 + gen_index trk \<noteq> 6 + gen_index trk'"
    by (cases trk; cases trk'; simp)
  have c1: "cache_object st obj1 trk \<noteq> class_attr st trk'"
    by (cases trk; cases trk'; simp add: sh(1,3))
  have c2: "cache_object st obj2 trk \<noteq> class_attr st trk'"
    by (cases trk; cases trk'; simp add: sh(2,3))
  have rw: "cache_read (st\<lparr>heap := (heap st)(3 + gen_index trk \<mapsto> d(nm \<mapsto> v))\<rparr>) obj1 trk nm
              = Inr v"
    by (simp add: cache_read_def a sh(1))
  have ro: "cache_read (st\<lparr>heap := (heap st)(3 + gen_index trk \<mapsto> d(nm \<mapsto> v))\<rparr>) obj2 trk' nm'
              = cache_read st obj2 trk' nm'"
    using ne by (simp add: cache_read_def a sh(2))
  show ?thesis
    using c1 c2 ne w rw ro by (simp add: sh(1,2))
qed

theorem caches_per_instance_witness:
  "two_instances demo_cfg 0 demo_cfg 1 \<noteq> Inl ValueError
   \<and> (0::nat) \<noteq> 1
   \<and> write_then_read (two_instances demo_cfg 0 demo_cfg 1) 0 Bass ''B'' (Some demo_item)
       1 Bass ''B'' =
     write_then_read (two_instances demo_cfg 0 demo_cfg 1) 0 Melody ''A'' None
       1 Bass ''B''"
proof -
  obtain st where st: "two_instances demo_cfg 0 demo_cfg 1 = Inr st"
    by (simp add: store_defs demo_cfg_def Let_def)
  have ne: "(0::nat) \<noteq> 1" by simp
  from caches_per_instance [OF st ne, of Bass Bass "''B''" "Some demo_item" "''B''"]
  have b: "write_then_read (Inr st) 0 Bass ''B'' (Some demo_item) 1 Bass ''B'' =
           cache_read st 1 Bass ''B''"
    by (auto simp: write_then_read_def)
  from caches_per_instance [OF st ne, of Melody Bass "''A''" None "''B''"]
  have m: "write_then_read (Inr st) 0 Melody ''A'' None 1 Bass ''B'' =
           cache_read st 1 Bass ''B''"
    by (auto simp: write_then_read_def)
  show ?thesis
    unfolding st using b m ne by simp
qed

section \<open>Frames of a tick\<close>

lemma lookup_stage:
  assumes "lookup_or_generate cfg tk cap part trk s = (r, s')"
  shows "playback s' = playback s" and "stop_signal s' = stop_signal s"
    and "panic s' = panic s"
    and "\<And>t nm it. cached s t nm = Some it \<Longrightarrow> cached s' t nm = Some it"
    and "\<exists>calls. gen_log s' = gen_log s @ calls
           \<and> (\<forall>c \<in> set calls. call_index c = gen_index trk
                  \<and> cached s trk (name part) = None)"
  using assms
  by (auto simp: lookup_or_generate_def cached_def
      split: option.splits prod.splits sum.splits if_splits dest: generate_calls)

lemma latency_stage:
  assumes "latency_push tk part T seqs s = (r, s')"
  shows "playback s' = playback s" and "stop_signal s' = stop_signal s"
    and "panic s' = panic s" and "gen_log s' = gen_log s"
    and "\<And>t nm it. cached s t nm = Some it \<Longrightarrow>
           \<exists>it'. cached s' t nm = Some it' \<and> sequence it' = sequence it"
  using latency_any [OF assms] by blast+

lemma dispatch_stage:
  "stop_signal (dispatch seqs s) = stop_signal s" "panic (dispatch seqs s) = panic s"
  "gen_log (dispatch seqs s) = gen_log s" "cached (dispatch seqs s) = cached s"
  "\<exists>evs. playback (dispatch seqs s) = playback s @ evs
         \<and> (\<forall>e \<in> set evs. scheduled_start e \<noteq> None)"
  by (auto simp: dispatch_def cached_def fun_eq_iff split: prod.splits)

lemma calls_append:
  assumes "\<forall>c \<in> set c1. \<exists>t. call_index c = gen_index t \<and> P t"
    and "\<forall>c \<in> set c2. call_index c = gen_index u \<and> Q"
    and "Q \<Longrightarrow> P u"
  shows "\<forall>c \<in> set (c1 @ c2). \<exists>t. call_index c = gen_index t \<and> P t"
proof
  fix c assume "c \<in> set (c1 @ c2)"
  then consider "c \<in> set c1" | "c \<in> set c2" by auto
  then show "\<exists>t. call_index c = gen_index t \<and> P t"
  proof cases
    case 1
    with assms(1) show ?thesis by (rule bspec)
  next
    case 2
    with assms(2) have "call_index c = gen_index u" and "Q" by blast+
    with assms(3) have "call_index c = gen_index u \<and> P u" by blast
    then show ?thesis by (rule exI)
  qed
qed

lemma part_boundary_any:
  assumes pb: "part_boundary cfg tk cap part T s = (st, s')"
  shows "stop_signal s' = stop_signal s \<and> panic s' = panic s
     \<and> (\<exists>evs. playback s' = playback s @ evs \<and> (\<forall>e \<in> set evs. scheduled_start e \<noteq> None))
     \<and> (\<forall>t nm it. cached s t nm = Some it \<longrightarrow>
           (\<exists>it'. cached s' t nm = Some it' \<and> sequence it' = sequence it))
     \<and> (\<exists>calls. gen_log s' = gen_log s @ calls
           \<and> (\<forall>c \<in> set calls. \<exists>t. call_index c = gen_index t
                  \<and> cached s t (name part) = None))"
proof -
  obtain r1 sm where l1: "lookup_or_generate cfg tk cap part Melody s = (r1, sm)"
    by (cases "lookup_or_generate cfg tk cap part Melody s")
  obtain r2 sb where l2: "lookup_or_generate cfg tk cap part Bass sm = (r2, sb)"
    by (cases "lookup_or_generate cfg tk cap part Bass sm")
  obtain r3 sd where l3: "lookup_or_generate cfg tk cap part Drums sb = (r3, sd)"
    by (cases "lookup_or_generate cfg tk cap part Drums sb")
  note a = lookup_stage [OF l1] and b = lookup_stage [OF l2] and c = lookup_stage [OF l3]
  have bm: "cached sm Bass (name part) = None \<Longrightarrow> cached s Bass (name part) = None"
    using a(4) [of Bass "name part"] by (cases "cached s Bass (name part)") auto
  have dm: "cached sb Drums (name part) = None \<Longrightarrow> cached s Drums (name part) = None"
    using a(4) [of Drums "name part"] b(4) [of Drums "name part"]
    by (cases "cached s Drums (name part)") auto
  have g1: "\<exists>calls. gen_log sm = gen_log s @ calls
           \<and> (\<forall>c \<in> set calls. \<exists>t. call_index c = gen_index t
                  \<and> cached s t (name part) = None)"
    using a(5) by blast
  have g2: "\<exists>calls. gen_log sb = gen_log s @ calls
           \<and> (\<forall>c \<in> set calls. \<exists>t. call_index c = gen_index t
                  \<and> cached s t (name part) = None)"
  proof -
    from g1 obtain c1 where c1: "gen_log sm = gen_log s @ c1"
      "\<forall>c \<in> set c1. \<exists>t. call_index c = gen_index t \<and> cached s t (name part) = None"
      by blast
    from b(5) obtain c2 where c2: "gen_log sb = gen_log sm @ c2"
      "\<forall>c \<in> set c2. call_index c = gen_index Bass \<and> cached sm Bass (name part) = None"
      by blast
    have "gen_log sb = gen_log s @ (c1 @ c2)" using c1(1) c2(1) by simp
    moreover have "\<forall>c \<in> set (c1 @ c2). \<exists>t. call_index c = gen_index t
        \<and> cached s t (name part) = None"
      using c1(2) c2(2) bm by (rule calls_append)
    ultimately show ?thesis by blast
  qed
  have g3: "\<exists>calls. gen_log sd = gen_log s @ calls
           \<and> (\<forall>c \<in> set calls. \<exists>t. call_index c = gen_index t
                  \<and> cached s t (name part) = None)"
  proof -
    from g2 obtain c1 where c1: "gen_log sb = gen_log s @ c1"
      "\<forall>c \<in> set c1. \<exists>t. call_index c = gen_index t \<and> cached s t (name part) = None"
      by blast
    from c(5) obtain c2 where c2: "gen_log sd = gen_log sb @ c2"
      "\<forall>c \<in> set c2. call_index c = gen_index Drums \<and> cached sb Drums (name part) = None"
      by blast
    have "gen_log sd = gen_log s @ (c1 @ c2)" using c1(1) c2(1) by simp
    moreover have "\<forall>c \<in> set (c1 @ c2). \<exists>t. call_index c = gen_index t
        \<and> cached s t (name part) = None"
      using c1(2) c2(2) dm by (rule calls_append)
    ultimately show ?thesis by blast
  qed
  have k1: "\<forall>t nm it. cached s t nm = Some it \<longrightarrow>
           (\<exists>it'. cached sm t nm = Some it' \<and> sequence it' = sequence it)"
    using a(4) by blast
  have k2: "\<forall>t nm it. cached s t nm = Some it \<longrightarrow>
           (\<exists>it'. cached sb t nm = Some it' \<and> sequence it' = sequence it)"
    using a(4) b(4) by blast
  have k3: "\<forall>t nm it. cached s t nm = Some it \<longrightarrow>
           (\<exists>it'. cached sd t nm = Some it' \<and> sequence it' = sequence it)"
    using a(4) b(4) c(4) by blast
  show ?thesis
  proof (cases r1)
    case (Inl e)
    with pb l1 have "s' = sm" by (simp add: part_boundary_def)
    with a g1 k1 show ?thesis by simp
  next
    case m: (Inr m)
    show ?thesis
    proof (cases r2)
      case (Inl e)
      with pb l1 l2 m have "s' = sb" by (simp add: part_boundary_def)
      with a b g2 k2 show ?thesis by simp
    next
      case bb: (Inr bs)
      show ?thesis
      proof (cases r3)
        case (Inl e)
        with pb l1 l2 l3 m bb have "s' = sd" by (simp add: part_boundary_def)
        with a b c g3 k3 show ?thesis by simp
      next
        case dd: (Inr ds)
        obtain r4 sl where lp: "latency_push tk part T
            (m, bs, chord_track part (response_start_time sd), ds) sd = (r4, sl)"
          by (cases "latency_push tk part T
            (m, bs, chord_track part (response_start_time sd), ds) sd")
        note l = latency_stage [OF lp]
        have k4: "\<forall>t nm it. cached s t nm = Some it \<longrightarrow>
           (\<exists>it'. cached sl t nm = Some it' \<and> sequence it' = sequence it)"
        proof (intro allI impI)
          fix t nm it assume "cached s t nm = Some it"
          with k3 obtain it1 where "cached sd t nm = Some it1" "sequence it1 = sequence it"
            by blast
          with l(5) [of t nm it1] show "\<exists>it'. cached sl t nm = Some it' \<and> sequence it' = sequence it"
            by auto
        qed
        show ?thesis
        proof (cases r4)
          case (Inl e)
          with pb l1 l2 l3 lp m bb dd have "s' = sl" by (simp add: part_boundary_def)
          with a b c l g3 k4 show ?thesis by simp
        next
          case (Inr seqs)
          with pb l1 l2 l3 lp m bb dd have "s' = dispatch seqs sl"
            by (simp add: part_boundary_def)
          with a b c l g3 k4 dispatch_stage [of seqs sl] show ?thesis by simp
        qed
      qed
    qed
  qed
qed


lemma panic_flush_frame [simp]:
  "stop_signal (panic_flush s) = stop_signal s" "caches (panic_flush s) = caches s"
  "gen_log (panic_flush s) = gen_log s" "panic (panic_flush s) = False"
  by (simp_all add: panic_flush_def)

lemma metronome_frame [simp]:
  "stop_signal (metronome cfg q t s) = stop_signal s" "caches (metronome cfg q t s) = caches s"
  "gen_log (metronome cfg q t s) = gen_log s" "panic (metronome cfg q t s) = panic s"
  "playback (metronome cfg q t s) = playback s"
  by (simp_all add: metronome_def)

lemma tick_body_cases:
  assumes tb: "tick_body cfg s tk = (st, s')" and ns: "\<not> stop_signal s"
  obtains
    (tempo) e where "st = Raised e" "s' = metronome cfg (qpm cfg (controls tk))
        (total_time (captured_sequence tk)) (panic_flush s)"
  | (finished) "st = Break" "s' = advance_part (metronome cfg (qpm cfg (controls tk))
        (total_time (captured_sequence tk)) (panic_flush s))" "current_part cfg s = None"
  | (inside) part where "st = Continue" "current_part cfg s = Some part" "\<not> start_of_part s"
      "s' = bookkeeping part (total_time (captured_sequence tk)) (tick_duration s tk)
         (advance_part (metronome cfg (qpm cfg (controls tk))
            (total_time (captured_sequence tk)) (panic_flush s)))"
  | (boundary) part cap where "current_part cfg s = Some part" "start_of_part s"
      "part_boundary cfg tk cap part (tick_duration s tk)
         (bookkeeping part (total_time (captured_sequence tk)) (tick_duration s tk)
           (advance_part (metronome cfg (qpm cfg (controls tk))
              (total_time (captured_sequence tk)) (panic_flush s)))) = (st, s')"
  using tb ns
  by (auto simp: tick_body_def Let_def start_of_part_def current_part_def tick_duration_def
      split: if_splits sum.splits)

lemma tick_body_stopped:
  "stop_signal s \<Longrightarrow> tick_body cfg s tk = (Break, s)"
  by (simp add: tick_body_def)

lemma tick_body_any:
  assumes tb: "tick_body cfg s tk = (st, s')" and ns: "\<not> stop_signal s"
  shows "\<not> stop_signal s' \<and> \<not> panic s'
     \<and> (\<exists>evs. playback s' = playback (panic_flush s) @ evs
            \<and> (\<forall>e \<in> set evs. scheduled_start e \<noteq> None))
     \<and> (\<forall>t nm it. cached s t nm = Some it \<longrightarrow>
           (\<exists>it'. cached s' t nm = Some it' \<and> sequence it' = sequence it))
     \<and> (\<exists>calls. gen_log s' = gen_log s @ calls
           \<and> (\<forall>c \<in> set calls. \<exists>p t. current_part cfg s = Some p \<and> start_of_part s
                  \<and> call_index c = gen_index t \<and> cached s t (name p) = None))"
  using tb ns
proof (cases rule: tick_body_cases)
  case (tempo e)
  then show ?thesis using ns by (simp add: cached_def)
next
  case finished
  then show ?thesis using ns by (simp add: cached_def advance_part_def)
next
  case (inside part)
  then show ?thesis using ns by (simp add: cached_def)
next
  case (boundary part cap)
  define s4 where "s4 = bookkeeping part (total_time (captured_sequence tk)) (tick_duration s tk)
           (advance_part (metronome cfg (qpm cfg (controls tk))
              (total_time (captured_sequence tk)) (panic_flush s)))"
  have c4: "cached s4 = cached s"
    by (rule cached_cong) (simp add: s4_def)
  have f4: "stop_signal s4 = stop_signal s" "panic s4 = False" "gen_log s4 = gen_log s"
    "playback s4 = playback (panic_flush s)"
    by (simp_all add: s4_def)
  from part_boundary_any [OF boundary(3) [folded s4_def]] boundary(1,2) ns
  show ?thesis
    unfolding c4 f4 by blast
qed

section \<open>Starting the run\<close>

text \<open>Claim C10. \<open>run\<close> reads the duration of the part at index 0 before the loop: for an
  empty structure it raises \<open>IndexError\<close> whatever the events are, in the state its
  initialisation reached, in which the four players were started and none was stopped and
  no generator was called; for a non-empty structure the initialisation succeeds with the
  first part's duration, and the run reaches the stopping of the players at the end of the
  capture.\<close>

theorem run_needs_a_part:
  "(STRUCTURE cfg = [] \<longrightarrow>
      fst (run cfg ctl clock0 clock1 events s) = Some IndexError
      \<and> snd (run cfg ctl clock0 clock1 events s) = snd (run_init cfg ctl clock0 clock1 s)
      \<and> new_playback s (snd (run cfg ctl clock0 clock1 events s)) =
          [StartPlayback 1 empty_sequence, StartPlayback 2 empty_sequence,
           StartPlayback 3 empty_sequence, StartPlayback 9 empty_sequence]
      \<and> gen_log (snd (run cfg ctl clock0 clock1 events s)) = gen_log s)
   \<and> (STRUCTURE cfg \<noteq> [] \<longrightarrow>
      fst (run_init cfg ctl clock0 clock1 s) = None
      \<and> part_duration (snd (run_init cfg ctl clock0 clock1 s)) = duration (hd (STRUCTURE cfg))
      \<and> run cfg ctl clock0 clock1 [] s =
          (None, stop_players (snd (run_init cfg ctl clock0 clock1 s))))"
  by (cases "STRUCTURE cfg")
     (simp_all add: run_def run_init_def Let_def new_playback_def metronome_def
       register_callback_def split: option.splits)

theorem run_needs_a_part_witness:
  "STRUCTURE (demo_cfg\<lparr>STRUCTURE := []\<rparr>) = []
   \<and> fst (run (demo_cfg\<lparr>STRUCTURE := []\<rparr>) Map.empty 0 0 [Tick (demo_tick 1 1 1)]
          (new_instance (demo_cfg\<lparr>STRUCTURE := []\<rparr>))) = Some IndexError
   \<and> STRUCTURE demo_cfg \<noteq> []
   \<and> fst (run_init demo_cfg Map.empty 0 0 (new_instance demo_cfg)) = None
   \<and> part_duration (snd (run_init demo_cfg Map.empty 0 0 (new_instance demo_cfg))) = 4"
proof -
  have e: "STRUCTURE (demo_cfg\<lparr>STRUCTURE := []\<rparr>) = []" by simp
  have n: "STRUCTURE demo_cfg \<noteq> []" by (simp add: demo_cfg_def demo_structure_def)
  have h: "duration (hd (STRUCTURE demo_cfg)) = 4" by (simp add: demo_cfg_def demo_structure_def)
  from run_needs_a_part [of "demo_cfg\<lparr>STRUCTURE := []\<rparr>" Map.empty 0 0 "[Tick (demo_tick 1 1 1)]"
      "new_instance (demo_cfg\<lparr>STRUCTURE := []\<rparr>)"] e
  have a: "fst (run (demo_cfg\<lparr>STRUCTURE := []\<rparr>) Map.empty 0 0 [Tick (demo_tick 1 1 1)]
          (new_instance (demo_cfg\<lparr>STRUCTURE := []\<rparr>))) = Some IndexError"
    by blast
  from run_needs_a_part [of demo_cfg Map.empty 0 0 "[]" "new_instance demo_cfg"] n h
  have b: "fst (run_init demo_cfg Map.empty 0 0 (new_instance demo_cfg)) = None
     \<and> part_duration (snd (run_init demo_cfg Map.empty 0 0 (new_instance demo_cfg))) = 4"
    by simp
  from e n a b show ?thesis by blast
qed

section \<open>The sample performance, tick by tick\<close>

lemmas demo_defs = demo_start_def demo_cfg_def demo_structure_def demo_tick_def new_instance_def
  run_init_def metronome_def register_callback_def structure_duration_def empty_sequence_def
  qpm_def control_value_def temperature_def

lemmas body_defs = tick_body_def panic_flush_def set_tempo_def advance_part_def bookkeeping_def
  part_boundary_def lookup_or_generate_def generate_def latency_push_def set_anchor_def
  dispatch_def push_ticks_def chord_track_def chord_notes_def shift_chord_notes_def
  generate_midi_chord_def add_track_to_sequence_def add_note_def adjust_sequence_times_def
  adjust_note_def trim_window_def demo_generator_def demo_note_def

text \<open>Claim C1 on the code. For the structure of part A with 4 bars and part B with 2 bars
  and ticks one second apart, the loop is still in part A after the fifth tick, with five
  bars counted for it, and enters part B only at the sixth tick: the test of line 276 is
  \<open>bars_played_for_part > part_duration\<close>, and the count is 4, not more than 4, when the
  fifth tick arrives.\<close>

theorem part_advance_at_sixth_tick:
  "map_option (\<lambda>s. (part_in_song s, bars_played_for_part s))
     (steps demo_cfg demo_start
       [Tick (demo_tick 1 1 1), Tick (demo_tick 2 2 2), Tick (demo_tick 3 3 3),
        Tick (demo_tick 4 4 4)]) = Some (0, 4)
   \<and> map_option (\<lambda>s. (part_in_song s, bars_played_for_part s))
     (steps demo_cfg demo_start
       [Tick (demo_tick 1 1 1), Tick (demo_tick 2 2 2), Tick (demo_tick 3 3 3),
        Tick (demo_tick 4 4 4), Tick (demo_tick 5 5 5)]) = Some (0, 5)
   \<and> map_option (\<lambda>s. (part_in_song s, bars_played_for_part s))
     (steps demo_cfg demo_start
       [Tick (demo_tick 1 1 1), Tick (demo_tick 2 2 2), Tick (demo_tick 3 3 3),
        Tick (demo_tick 4 4 4), Tick (demo_tick 5 5 5), Tick (demo_tick 6 6 6)]) = Some (1, 1)"
  by (simp add: demo_defs body_defs Let_def)

section \<open>The dispatch of a part boundary\<close>

lemma last_hit_anchor_cong:
  "cached s = cached s' \<Longrightarrow> last_hit_anchor s nm t = last_hit_anchor s' nm t"
  unfolding last_hit_anchor_def by (erule subst) (rule refl)

lemma boundary_tick:
  assumes tb: "tick_body cfg s tk = (Continue, s')" and sp: "start_of_part s"
    and cp: "current_part cfg s = Some part"
  defines "nm \<equiv> name part"
  defines "T \<equiv> tick_duration s tk"
  defines "r0 \<equiv> last_hit_anchor s nm (total_time (captured_sequence tk))"
  defines "dl \<equiv> push_delta tk T r0"
  shows "\<exists>im ib idr.
      cached s' Melody nm = Some im \<and> cached s' Bass nm = Some ib
    \<and> cached s' Drums nm = Some idr
    \<and> (\<forall>it0. cached s Melody nm = Some it0 \<longrightarrow>
          sequence im = sequence it0 \<and> (\<not> too_late tk T r0 \<longrightarrow> im = it0))
    \<and> (\<forall>it0. cached s Bass nm = Some it0 \<longrightarrow>
          sequence ib = sequence it0 \<and> (\<not> too_late tk T r0 \<longrightarrow> ib = it0))
    \<and> (\<forall>it0. cached s Drums nm = Some it0 \<longrightarrow>
          sequence idr = sequence it0 \<and> (\<not> too_late tk T r0 \<longrightarrow> idr = it0))
    \<and> (cached s Melody nm = None \<and> \<not> too_late tk T r0 \<longrightarrow> anchor im = captor_start_time tk)
    \<and> (cached s Bass nm = None \<and> \<not> too_late tk T r0 \<longrightarrow> anchor ib = captor_start_time tk)
    \<and> (cached s Drums nm = None \<and> \<not> too_late tk T r0 \<longrightarrow> anchor idr = captor_start_time tk)
    \<and> (too_late tk T r0 \<longrightarrow>
          T \<noteq> 0 \<and> anchor im = r0 + dl \<and> anchor ib = r0 + dl \<and> anchor idr = r0 + dl)
    \<and> response_start_time s' = r0 + dl
    \<and> new_playback (panic_flush s) s' =
         [UpdateSequence 1 (adjust_sequence_times (sequence im) dl) (Some (r0 + dl)),
          UpdateSequence 2 (adjust_sequence_times (sequence ib) dl) (Some (r0 + dl)),
          UpdateSequence 3 (adjust_sequence_times (chord_track part r0) dl) (Some (r0 + dl)),
          UpdateSequence 9 (adjust_sequence_times (sequence idr) dl) (Some (r0 + dl))]
    \<and> map call_index (new_calls s s') =
         map gen_index (filter (\<lambda>trk. cached s trk nm = None) [Melody, Bass, Drums])"
proof -
  from tb sp obtain part' cap s4 where
    cp': "current_part cfg s = Some part'" and
    pb: "part_boundary cfg tk cap part' (tick_duration s tk) s4 = (Continue, s')" and
    f: "caches s4 = caches s" "gen_log s4 = gen_log s" "playback s4 = playback (panic_flush s)"
      "response_start_time s4 = total_time (captured_sequence tk)"
    by (rule tick_body_boundary)
  from cp cp' have p: "part' = part" by simp
  have c: "cached s4 = cached s" using f(1) by (rule cached_cong)
  have l: "last_hit_anchor s4 nm (response_start_time s4) = r0"
    unfolding r0_def f(4) using c by (rule last_hit_anchor_cong)
  have n: "new_calls s4 s' = new_calls s s'"
    by (simp add: new_calls_def f(2))
  from part_boundary_Continue [OF pb [unfolded p]]
  show ?thesis
    unfolding nm_def [symmetric] l c n T_def [symmetric] dl_def [symmetric]
    by (auto simp: new_playback_def f(3))
qed


lemma boundary_has_part:
  assumes "tick_body cfg s tk = (Continue, s')" and "start_of_part s"
  shows "\<exists>part. current_part cfg s = Some part"
  using assms by (rule tick_body_boundary) blast

text \<open>Claim C2. A tick that starts a part and completes pushes exactly four updates after
  the panic flush, to the players of melody, bass, chords and drums (channels 1, 2, 3, 9),
  all with the same start time: the value of \<open>response_start_time\<close> at the end of the
  tick, which is the start time left by the cache consultations plus the latency push of
  that tick.\<close>

theorem dispatch_phase_lock:
  assumes "tick_body cfg s tk = (Continue, s')" and "start_of_part s"
  shows "map channel_of (new_playback (panic_flush s) s') = [1, 2, 3, 9]
     \<and> map scheduled_start (new_playback (panic_flush s) s') =
         [Some (response_start_time s'), Some (response_start_time s'),
          Some (response_start_time s'), Some (response_start_time s')]
     \<and> (\<exists>part. current_part cfg s = Some part
          \<and> response_start_time s' =
              last_hit_anchor s (name part) (total_time (captured_sequence tk))
              + push_delta tk (tick_duration s tk)
                  (last_hit_anchor s (name part) (total_time (captured_sequence tk))))"
proof -
  from boundary_has_part [OF assms] obtain part where cp: "current_part cfg s = Some part"
    by blast
  from boundary_tick [OF assms cp] cp show ?thesis
    by auto
qed

lemma demo_late_tick:
  "tick_body demo_cfg demo_start (demo_tick 1 (19 / 10) (21 / 10)) =
     (Continue, snd (tick_body demo_cfg demo_start (demo_tick 1 (19 / 10) (21 / 10))))"
  "response_start_time (snd (tick_body demo_cfg demo_start (demo_tick 1 (19 / 10) (21 / 10)))) = 3"
  by (simp_all add: prod_eq_iff demo_defs body_defs Let_def)

lemma demo_start_facts:
  "start_of_part demo_start" "current_part demo_cfg demo_start = Some (demo_structure ! 0)"
  "tick_duration demo_start (demo_tick t c1 c2) = t"
  "last_hit_anchor demo_start ''A'' t = t"
  by (simp_all add: start_of_part_def current_part_def advance_part_def tick_duration_def
      last_hit_anchor_def cached_def demo_defs)

theorem dispatch_phase_lock_witness:
  "tick_body demo_cfg demo_start (demo_tick 1 (19 / 10) (21 / 10)) =
     (Continue, snd (tick_body demo_cfg demo_start (demo_tick 1 (19 / 10) (21 / 10))))
   \<and> start_of_part demo_start
   \<and> map scheduled_start (new_playback (panic_flush demo_start)
        (snd (tick_body demo_cfg demo_start (demo_tick 1 (19 / 10) (21 / 10))))) =
       [Some 3, Some 3, Some 3, Some 3]"
  using dispatch_phase_lock [OF demo_late_tick(1) demo_start_facts(1)]
    demo_late_tick demo_start_facts(1)
  by simp





section \<open>The panic flush\<close>

lemma flush_count_append:
  assumes "playback s' = playback s @ evs" and "\<forall>e \<in> set evs. scheduled_start e \<noteq> None"
  shows "flush_count ch s' = flush_count ch s"
proof -
  have "filter (\<lambda>e. e = UpdateSequence ch empty_sequence None) evs = []"
    using assms(2) by (auto simp: filter_empty_conv)
  then show ?thesis by (simp add: flush_count_def assms(1))
qed

lemma flush_count_panic_flush:
  "flush_count ch (panic_flush s) =
     flush_count ch s + (if panic s \<and> ch \<in> {1, 2, 3, 9} then 1 else 0)"
  by (auto simp: flush_count_def panic_flush_def)

lemma tick_body_flushes:
  assumes "tick_body cfg s tk = (st, s')" and "\<not> stop_signal s"
  shows "flush_count ch s' = flush_count ch s + (if panic s \<and> ch \<in> {1, 2, 3, 9} then 1 else 0)"
    and "\<not> panic s'" and "\<not> stop_signal s'"
proof -
  from tick_body_any [OF assms] obtain evs where
    "playback s' = playback (panic_flush s) @ evs" "\<forall>e \<in> set evs. scheduled_start e \<noteq> None"
    and f: "\<not> panic s'" "\<not> stop_signal s'"
    by blast
  then have "flush_count ch s' = flush_count ch (panic_flush s)"
    by (intro flush_count_append)
  then show "flush_count ch s' =
      flush_count ch s + (if panic s \<and> ch \<in> {1, 2, 3, 9} then 1 else 0)"
    by (simp only: flush_count_panic_flush)
  show "\<not> panic s'" "\<not> stop_signal s'" by (rule f)+
qed

lemma flush_count_callback:
  "e \<noteq> PanicCallback \<Longrightarrow> flush_count ch (callback e s) = flush_count ch s
     \<and> panic (callback e s) = panic s"
  by (cases e) (simp_all add: flush_count_def)

lemma run_loop_no_panic:
  "\<not> panic s \<Longrightarrow> PanicCallback \<notin> set es \<Longrightarrow>
     flush_count ch (snd (run_loop cfg s es)) = flush_count ch s"
proof (induction es arbitrary: s)
  case Nil
  then show ?case by simp
next
  case (Cons e es)
  show ?case
  proof (cases e)
    case (Tick tk)
    obtain st s' where tb: "tick_body cfg s tk = (st, s')"
      by (cases "tick_body cfg s tk")
    show ?thesis
    proof (cases "stop_signal s")
      case True
      then show ?thesis by (simp add: Tick tick_body_stopped)
    next
      case False
      note t = tick_body_flushes [OF tb False]
      from t(1) [of ch] Cons.prems(1) have eq: "flush_count ch s' = flush_count ch s" by simp
      show ?thesis
      proof (cases st)
        case Continue
        with Cons.IH [of s'] t(2) Cons.prems(2) eq tb Tick show ?thesis by simp
      next
        case Break
        with eq tb Tick show ?thesis by simp
      next
        case (Raised x)
        with eq tb Tick show ?thesis by simp
      qed
    qed
  next
    case PanicCallback
    with Cons.prems(2) show ?thesis by simp
  next
    case EndCallCallback
    with Cons.IH [of "callback e s"] Cons.prems flush_count_callback [of e ch s]
    show ?thesis by simp
  next
    case MutateCallback
    with Cons.IH [of "callback e s"] Cons.prems flush_count_callback [of e ch s]
    show ?thesis by simp
  next
    case StopRequest
    with Cons.IH [of "callback e s"] Cons.prems flush_count_callback [of e ch s]
    show ?thesis by simp
  qed
qed

text \<open>Claim C5. When a tick is processed with the panic flag set and the stop flag not
  set, the first thing the tick does to the players is to replace the sequence of each of
  the four with the empty sequence, and the flag is cleared, whether or not the tick starts
  a part; and however the run goes on from that tick, as long as no new panic signal
  arrives, each of the four players is flushed exactly once more than before the tick.\<close>

theorem panic_flushes_once:
  assumes "panic s" and "\<not> stop_signal s"
  shows "take 4 (new_playback s (snd (tick_body cfg s tk))) =
           [UpdateSequence 1 empty_sequence None, UpdateSequence 2 empty_sequence None,
            UpdateSequence 3 empty_sequence None, UpdateSequence 9 empty_sequence None]
     \<and> \<not> panic (snd (tick_body cfg s tk))
     \<and> (\<forall>es ch. PanicCallback \<notin> set es \<longrightarrow>
           flush_count ch (snd (run_loop cfg s (Tick tk # es))) =
             flush_count ch s + (if ch \<in> {1, 2, 3, 9} then 1 else 0))"
proof -
  obtain st s' where tb: "tick_body cfg s tk = (st, s')"
    by (cases "tick_body cfg s tk")
  note t = tick_body_flushes [OF tb assms(2)]
  from tick_body_any [OF tb assms(2)] obtain evs where
    pl: "playback s' = playback (panic_flush s) @ evs" by blast
  have a: "take 4 (new_playback s s') =
           [UpdateSequence 1 empty_sequence None, UpdateSequence 2 empty_sequence None,
            UpdateSequence 3 empty_sequence None, UpdateSequence 9 empty_sequence None]"
    using assms(1) by (simp add: new_playback_def pl panic_flush_def)
  have c: "flush_count ch (snd (run_loop cfg s (Tick tk # es))) =
             flush_count ch s + (if ch \<in> {1, 2, 3, 9} then 1 else 0)"
    if "PanicCallback \<notin> set es" for es ch
  proof (cases st)
    case Continue
    with run_loop_no_panic [OF t(2) that, of ch cfg] t(1) [of ch] assms(1) tb
    show ?thesis by simp
  next
    case Break
    with t(1) [of ch] assms(1) tb show ?thesis by simp
  next
    case (Raised x)
    with t(1) [of ch] assms(1) tb show ?thesis by simp
  qed
  from a t(2) c show ?thesis by (simp add: tb)
qed

theorem panic_flushes_once_witness:
  "panic (callback PanicCallback demo_start)
   \<and> \<not> stop_signal (callback PanicCallback demo_start)
   \<and> PanicCallback \<notin> set [Tick (demo_tick 2 2 2), Tick (demo_tick 3 3 3)]
   \<and> flush_count 1 (snd (run_loop demo_cfg (callback PanicCallback demo_start)
        [Tick (demo_tick 1 1 1), Tick (demo_tick 2 2 2), Tick (demo_tick 3 3 3)])) = 1
   \<and> \<not> panic (snd (tick_body demo_cfg (callback PanicCallback demo_start) (demo_tick 1 1 1)))"
proof -
  have p: "panic (callback PanicCallback demo_start)" by simp
  have n: "\<not> stop_signal (callback PanicCallback demo_start)" by (simp add: demo_defs)
  have e: "PanicCallback \<notin> set [Tick (demo_tick 2 2 2), Tick (demo_tick 3 3 3)]" by simp
  have z: "flush_count 1 (callback PanicCallback demo_start) = 0"
    by (simp add: flush_count_def demo_defs)
  note inst = panic_flushes_once [OF p n, of demo_cfg "demo_tick 1 1 1"]
  from inst e z have "flush_count 1 (snd (run_loop demo_cfg (callback PanicCallback demo_start)
        (Tick (demo_tick 1 1 1) # [Tick (demo_tick 2 2 2), Tick (demo_tick 3 3 3)]))) = 0 + 1"
    by (metis insertI1)
  moreover from inst have
    "\<not> panic (snd (tick_body demo_cfg (callback PanicCallback demo_start) (demo_tick 1 1 1)))"
    by blast
  ultimately show ?thesis using p n e by simp
qed

end
